theory Spec2Isabelle
  imports
    Main
    "HOL-Library.AList"
    "HOL-Library.Product_Lexorder"
    "HOL-Library.Sublist"
    "HOL-Library.Multiset"
begin

section \<open>Domain: tasks and errors (domain/models.py, domain/errors.py)\<close>

text \<open>
  \<^verbatim>\<open>Status = Literal["open", "done"]\<close> and \<^verbatim>\<open>Priority = Literal["low", "med", "high"]\<close>
  are enumerations. A \<^verbatim>\<open>date\<close> is compared by year, then month, then day, which is
  the lexicographic order of the triple; a \<^verbatim>\<open>datetime\<close> in UTC is a point on the time
  line, an integer.
\<close>

datatype Status = Open | Done

datatype Priority = Low | Med | High

type_synonym date = "nat \<times> nat \<times> nat"

type_synonym datetime = int

text \<open>The dataclass \<^verbatim>\<open>Task\<close>. The field \<^verbatim>\<open>id\<close> is written \<open>id'\<close>.\<close>

record Task =
  id' :: int
  title :: string
  status :: Status
  created_at :: datetime
  due_date :: "date option"
  priority :: "Priority option"
  tags :: "string list"

text \<open>
  \<^verbatim>\<open>ValidationError(message)\<close> and \<^verbatim>\<open>TaskNotFoundError(task_id)\<close>; the specification
  calls them InvalidInput and NotFound.
\<close>

datatype error = ValidationError string | TaskNotFoundError int

section \<open>The object store and the repository (repository/memory_repo.py)\<close>

text \<open>
  A \<^verbatim>\<open>Task\<close> is a mutable object and the repository's dictionary holds references to
  such objects, which \<^verbatim>\<open>add\<close>, \<^verbatim>\<open>get\<close>, \<^verbatim>\<open>update\<close> and \<^verbatim>\<open>list_all\<close> hand to the
  caller. The model keeps the objects in a store: \<open>heap\<close> maps an address to the object
  there and \<open>next_ref\<close> is the first address not yet allocated. \<open>tasks\<close> is the
  dictionary \<^verbatim>\<open>_tasks\<close> in insertion order (a Python dictionary iterates in insertion
  order), from id to address; \<open>next_id\<close> is \<^verbatim>\<open>_next_id\<close>.
\<close>

type_synonym ref = nat

record state =
  heap :: "ref \<Rightarrow> Task"
  next_ref :: ref
  tasks :: "(int \<times> ref) list"
  next_id :: int

text \<open>What an address holds before an object is allocated there; never read.\<close>

definition unallocated :: Task where
  "unallocated = \<lparr>id' = 0, title = [], status = Open, created_at = 0,
     due_date = None, priority = None, tags = []\<rparr>"

text \<open>\<^verbatim>\<open>__init__\<close>: an empty dictionary and \<^verbatim>\<open>_next_id = 1\<close>.\<close>

definition init :: state where
  "init = \<lparr>heap = (\<lambda>_. unallocated), next_ref = 0, tasks = [], next_id = 1\<rparr>"

text \<open>
  Attribute assignment \<^verbatim>\<open>task.f = v\<close> on the object at address \<open>r\<close>. The repository
  does it in \<^verbatim>\<open>update\<close>; any holder of the reference can do it as well.
\<close>

definition setattr :: "ref \<Rightarrow> (Task \<Rightarrow> Task) \<Rightarrow> state \<Rightarrow> state" where
  "setattr r f s = s\<lparr>heap := (heap s)(r := f (heap s r))\<rparr>"

text \<open>
  \<^verbatim>\<open>tags or []\<close>: \<^verbatim>\<open>None\<close> and the empty list are both falsy. A task holds the value
  of its list of tags: the code stores the list object it is given, and what a holder of
  that object does to it in place later is outside the model.
\<close>

definition or_empty :: "string list option \<Rightarrow> string list" where
  "or_empty ts = (case ts of None \<Rightarrow> [] | Some xs \<Rightarrow> if xs = [] then [] else xs)"

text \<open>
  \<^verbatim>\<open>add\<close>: builds a new \<^verbatim>\<open>Task\<close> object with id \<^verbatim>\<open>_next_id\<close>, stores it under that key,
  increments the counter and returns the object.
\<close>

definition add ::
  "string \<Rightarrow> datetime \<Rightarrow> date option \<Rightarrow> Priority option \<Rightarrow> string list option
     \<Rightarrow> state \<Rightarrow> ref \<times> state" where
  "add title_a created_at_a due_date_a priority_a tags_a s =
     (let task = \<lparr>id' = next_id s, title = title_a, status = Open,
                  created_at = created_at_a, due_date = due_date_a,
                  priority = priority_a, tags = or_empty tags_a\<rparr>;
          r = next_ref s
      in (r, s\<lparr>heap := (heap s)(r := task),
               next_ref := Suc r,
               tasks := AList.update (next_id s) r (tasks s),
               next_id := next_id s + 1\<rparr>))"

text \<open>\<^verbatim>\<open>get\<close>: the stored object itself, or \<^verbatim>\<open>TaskNotFoundError\<close>.\<close>

definition get :: "int \<Rightarrow> state \<Rightarrow> error + ref" where
  "get task_id s =
     (case map_of (tasks s) task_id of
        None \<Rightarrow> Inl (TaskNotFoundError task_id)
      | Some r \<Rightarrow> Inr r)"

text \<open>
  The default \<^verbatim>\<open>...\<close> of \<^verbatim>\<open>due_date\<close>, \<^verbatim>\<open>priority\<close> and \<^verbatim>\<open>tags\<close> in \<^verbatim>\<open>update\<close> is a
  sentinel that is different from \<^verbatim>\<open>None\<close>: \<open>Ellipsis\<close> is "not provided",
  \<open>Given None\<close> is "provided as absent". \<^verbatim>\<open>title\<close> and \<^verbatim>\<open>status\<close> default to \<^verbatim>\<open>None\<close>,
  which for them means "not provided".
\<close>

datatype 'a arg = Ellipsis | Given 'a

definition update ::
  "int \<Rightarrow> string option \<Rightarrow> Status option \<Rightarrow> date option arg \<Rightarrow> Priority option arg
     \<Rightarrow> string list option arg \<Rightarrow> state \<Rightarrow> (error + ref) \<times> state" where
  "update task_id title_a status_a due_date_a priority_a tags_a s =
     (case get task_id s of
        Inl e \<Rightarrow> (Inl e, s)
      | Inr r \<Rightarrow>
          (let s1 = (case title_a of None \<Rightarrow> s
                     | Some v \<Rightarrow> setattr r (\<lambda>t. t\<lparr>title := v\<rparr>) s);
               s2 = (case status_a of None \<Rightarrow> s1
                     | Some v \<Rightarrow> setattr r (\<lambda>t. t\<lparr>status := v\<rparr>) s1);
               s3 = (case due_date_a of Ellipsis \<Rightarrow> s2
                     | Given v \<Rightarrow> setattr r (\<lambda>t. t\<lparr>due_date := v\<rparr>) s2);
               s4 = (case priority_a of Ellipsis \<Rightarrow> s3
                     | Given v \<Rightarrow> setattr r (\<lambda>t. t\<lparr>priority := v\<rparr>) s3);
               s5 = (case tags_a of Ellipsis \<Rightarrow> s4
                     | Given v \<Rightarrow> setattr r (\<lambda>t. t\<lparr>tags := or_empty v\<rparr>) s4)
           in (Inr r, s5)))"

text \<open>\<^verbatim>\<open>delete\<close>: removes the key, or raises when it is not there.\<close>

definition delete :: "int \<Rightarrow> state \<Rightarrow> (error + unit) \<times> state" where
  "delete task_id s =
     (if map_of (tasks s) task_id = None then (Inl (TaskNotFoundError task_id), s)
      else (Inr (), s\<lparr>tasks := AList.delete task_id (tasks s)\<rparr>))"

text \<open>
  \<^verbatim>\<open>clear_done\<close>: collects the keys whose task is done, deletes each of them and
  returns how many there were.
\<close>

definition done_ids :: "state \<Rightarrow> int list" where
  "done_ids s = map fst (filter (\<lambda>(tid, r). status (heap s r) = Done) (tasks s))"

definition clear_done :: "state \<Rightarrow> nat \<times> state" where
  "clear_done s =
     (length (done_ids s),
      fold (\<lambda>tid s'. s'\<lparr>tasks := AList.delete tid (tasks s')\<rparr>) (done_ids s) s)"

subsection \<open>Listing: filters and sort keys\<close>

text \<open>
  The selectors \<^verbatim>\<open>Literal["all", "open", "done"]\<close> (\<open>All'\<close> is \<^verbatim>\<open>"all"\<close>) and
  \<^verbatim>\<open>SortField = Literal["created", "due", "priority"]\<close>. For a value of the latter
  type one of the three branches of \<^verbatim>\<open>_sort_tasks\<close> is taken.
\<close>

datatype StatusFilter = All' | Only Status

datatype SortField = ByCreated | ByDue | ByPriority

text \<open>
  \<^verbatim>\<open>str.lower\<close> on code points below 256: the letters A to Z, and 192 to 222 without
  215 (the multiplication sign), move up by 32.
\<close>

definition lower_char :: "char \<Rightarrow> char" where
  "lower_char c =
     (let n = (of_char c :: nat)
      in if (65 \<le> n \<and> n \<le> 90) \<or> (192 \<le> n \<and> n \<le> 222 \<and> n \<noteq> 215) then char_of (n + 32)
         else c)"

definition lower :: "string \<Rightarrow> string" where
  "lower s = map lower_char s"

text \<open>\<^verbatim>\<open>date.max\<close>\<close>

definition date_max :: date where
  "date_max = (9999, 12, 31)"

definition created_key :: "Task \<Rightarrow> datetime \<times> int" where
  "created_key t = (created_at t, id' t)"

definition due_key :: "Task \<Rightarrow> nat \<times> date \<times> int" where
  "due_key t =
     (case due_date t of Some d \<Rightarrow> (0, d, id' t) | None \<Rightarrow> (1, date_max, id' t))"

definition priority_order :: "Priority option \<Rightarrow> nat" where
  "priority_order p =
     (case p of Some High \<Rightarrow> 0 | Some Med \<Rightarrow> 1 | Some Low \<Rightarrow> 2 | None \<Rightarrow> 3)"

definition priority_key :: "Task \<Rightarrow> nat \<times> int" where
  "priority_key t = (priority_order (priority t), id' t)"

text \<open>
  \<^verbatim>\<open>_sort_tasks\<close>: \<^verbatim>\<open>sorted\<close> is a stable sort by the key, as \<open>sort_key\<close> is. The list
  holds references, the key reads the object behind each.
\<close>

definition sort_tasks :: "state \<Rightarrow> ref list \<Rightarrow> SortField \<Rightarrow> ref list" where
  "sort_tasks s rs sort_a =
     (case sort_a of
        ByCreated \<Rightarrow> sort_key (\<lambda>r. created_key (heap s r)) rs
      | ByDue \<Rightarrow> sort_key (\<lambda>r. due_key (heap s r)) rs
      | ByPriority \<Rightarrow> sort_key (\<lambda>r. priority_key (heap s r)) rs)"

text \<open>
  \<^verbatim>\<open>list_all\<close>: the values of the dictionary, filtered by status, then by tag, then
  sorted. The result is a new list of the stored objects.
\<close>

definition list_all_tasks ::
  "StatusFilter \<Rightarrow> string option \<Rightarrow> SortField \<Rightarrow> state \<Rightarrow> ref list" where
  "list_all_tasks status_a tag_a sort_a s =
     (let ts0 = map snd (tasks s);
          ts1 = (case status_a of All' \<Rightarrow> ts0
                 | Only st \<Rightarrow> filter (\<lambda>r. status (heap s r) = st) ts0);
          ts2 = (case tag_a of None \<Rightarrow> ts1
                 | Some tg \<Rightarrow>
                     filter (\<lambda>r. \<exists>x \<in> set (tags (heap s r)). lower x = lower tg) ts1)
      in sort_tasks s ts2 sort_a)"

section \<open>Validation (domain/models.py)\<close>

text \<open>
  A string is the list of its code points; the model covers the strings whose code
  points are below 256, which is what a \<open>char\<close> holds. \<^verbatim>\<open>str.strip\<close> removes the white
  space of \<^verbatim>\<open>str.isspace\<close>, among these code points 9 to 13, 28 to 32, 133 and 160.
\<close>

definition is_space :: "char \<Rightarrow> bool" where
  "is_space c =
     (let n = (of_char c :: nat)
      in (9 \<le> n \<and> n \<le> 13) \<or> (28 \<le> n \<and> n \<le> 32) \<or> n = 133 \<or> n = 160)"

definition strip :: "string \<Rightarrow> string" where
  "strip s = rev (dropWhile is_space (rev (dropWhile is_space s)))"

definition validate_title :: "string \<Rightarrow> error + string" where
  "validate_title title_a =
     (let stripped = strip title_a
      in if stripped = [] then Inl (ValidationError ''Title cannot be empty'')
         else Inr stripped)"

definition validate_priority :: "string option \<Rightarrow> error + Priority option" where
  "validate_priority priority_str =
     (case priority_str of
        None \<Rightarrow> Inr None
      | Some p \<Rightarrow>
          if p = ''low'' then Inr (Some Low)
          else if p = ''med'' then Inr (Some Med)
          else if p = ''high'' then Inr (Some High)
          else Inl (ValidationError
                 (''Invalid priority: '' @ p @ ''. Must be one of: low, med, high'')))"

text \<open>\<^verbatim>\<open>str.split(",")\<close>: always at least one piece.\<close>

fun split_comma :: "string \<Rightarrow> string list" where
  "split_comma [] = [[]]"
| "split_comma (c # cs) =
     (if c = CHR '','' then [] # split_comma cs
      else (case split_comma cs of
              [] \<Rightarrow> [[c]]
            | p # ps \<Rightarrow> (c # p) # ps))"

definition parse_tags :: "string option \<Rightarrow> string list" where
  "parse_tags tags_str =
     (case tags_str of
        None \<Rightarrow> []
      | Some s \<Rightarrow> filter (\<lambda>t. t \<noteq> []) (map strip (split_comma s)))"

subsection \<open>The library function \<^verbatim>\<open>date.fromisoformat\<close>\<close>

text \<open>
  \<^verbatim>\<open>parse_due_date\<close> hands its argument to \<^verbatim>\<open>date.fromisoformat\<close> of the Python standard
  library, which is not part of the repository. The repository needs Python 3.10 or
  later; the definitions below follow CPython 3.11 and later, where the function takes
  the calendar forms \<^verbatim>\<open>YYYY-MM-DD\<close> and \<^verbatim>\<open>YYYYMMDD\<close> and the ISO week forms
  \<^verbatim>\<open>YYYY-Www\<close>, \<^verbatim>\<open>YYYYWww\<close>, \<^verbatim>\<open>YYYY-Www-D\<close> and \<^verbatim>\<open>YYYYWwwD\<close>. (CPython 3.10
  takes the first form only.) The parser works on the UTF-8 encoding of the string: the
  encoding must be 7, 8 or 10 bytes long, a number is a run of ASCII digits, and what
  follows the day is not looked at. The calendar arithmetic is that of
  \<^verbatim>\<open>Lib/datetime.py\<close>. \<open>None\<close> stands for \<^verbatim>\<open>ValueError\<close>.
\<close>

definition utf8 :: "string \<Rightarrow> string" where
  "utf8 s =
     concat (map (\<lambda>c. let n = (of_char c :: nat)
                       in if n < 128 then [c]
                          else [char_of (192 + n div 64), char_of (128 + n mod 64)]) s)"

definition is_digit :: "char \<Rightarrow> bool" where
  "is_digit c = (let n = (of_char c :: nat) in 48 \<le> n \<and> n \<le> 57)"

definition digit_val :: "char \<Rightarrow> nat" where
  "digit_val c = of_char c - 48"

definition parse_digits :: "string \<Rightarrow> nat option" where
  "parse_digits cs =
     (if list_all is_digit cs then Some (foldl (\<lambda>n c. 10 * n + digit_val c) 0 cs)
      else None)"

text \<open>The number written in the \<open>k\<close> bytes from position \<open>pos\<close>, when they are digits.\<close>

definition digits_at :: "string \<Rightarrow> nat \<Rightarrow> nat \<Rightarrow> nat option" where
  "digits_at b pos k =
     (let cs = take k (drop pos b) in if length cs = k then parse_digits cs else None)"

definition has_at :: "string \<Rightarrow> nat \<Rightarrow> char \<Rightarrow> bool" where
  "has_at b pos c = (pos < length b \<and> b ! pos = c)"

definition is_leap :: "nat \<Rightarrow> bool" where
  "is_leap y = (y mod 4 = 0 \<and> (y mod 100 \<noteq> 0 \<or> y mod 400 = 0))"

definition days_in_month :: "nat \<Rightarrow> nat \<Rightarrow> nat" where
  "days_in_month y m =
     (if m = 2 then (if is_leap y then 29 else 28)
      else if m = 4 \<or> m = 6 \<or> m = 9 \<or> m = 11 then 30
      else 31)"

text \<open>
  \<^verbatim>\<open>_days_before_year\<close>, \<^verbatim>\<open>_ymd2ord(year, 1, 1)\<close>, \<^verbatim>\<open>_isoweek1monday\<close> and \<^verbatim>\<open>_ord2ymd\<close>:
  the ordinal of a day counts from 1 for 1 January of year 1, a Monday.
\<close>

definition days_before_year :: "nat \<Rightarrow> nat" where
  "days_before_year year = (let y = year - 1 in y * 365 + y div 4 - y div 100 + y div 400)"

definition ord_jan1 :: "nat \<Rightarrow> int" where
  "ord_jan1 year = int (days_before_year year) + 1"

definition isoweek1monday :: "nat \<Rightarrow> int" where
  "isoweek1monday year =
     (let firstday = ord_jan1 year;
          firstweekday = (firstday + 6) mod 7;
          week1monday = firstday - firstweekday
      in if firstweekday > 3 then week1monday + 7 else week1monday)"

definition days_before_month_table :: "nat list" where
  "days_before_month_table = [0, 0, 31, 59, 90, 120, 151, 181, 212, 243, 273, 304, 334]"

definition days_in_month_table :: "nat list" where
  "days_in_month_table = [0, 31, 28, 31, 30, 31, 30, 31, 31, 30, 31, 30, 31]"

definition ord2ymd :: "nat \<Rightarrow> date" where
  "ord2ymd ordinal =
     (let n = ordinal - 1;
          n400 = n div 146097; na = n mod 146097;
          n100 = na div 36524; nb = na mod 36524;
          n4 = nb div 1461; nc = nb mod 1461;
          n1 = nc div 365; nd = nc mod 365;
          year = n400 * 400 + 1 + n100 * 100 + n4 * 4 + n1
      in if n1 = 4 \<or> n100 = 4 then (year - 1, 12, 31)
         else
           (let leapyear = (n1 = 3 \<and> (n4 \<noteq> 24 \<or> n100 = 3));
                month = (nd + 50) div 32;
                preceding = days_before_month_table ! month
                            + (if month > 2 \<and> leapyear then 1 else 0)
            in if preceding > nd then
                 (let month' = month - 1;
                      preceding' = preceding
                        - (days_in_month_table ! month'
                           + (if month' = 2 \<and> leapyear then 1 else 0))
                  in (year, month', nd - preceding' + 1))
               else (year, month, nd - preceding + 1)))"

text \<open>
  \<^verbatim>\<open>_isoweek_to_gregorian\<close>: the year must be from 1 to 9999, the week from 1 to 52, or
  53 in a year that starts on a Thursday or is a leap year starting on a Wednesday, and
  the day from 1 to 7.
\<close>

definition isoweek_to_gregorian :: "nat \<Rightarrow> nat \<Rightarrow> nat \<Rightarrow> date option" where
  "isoweek_to_gregorian year week day =
     (if \<not> (1 \<le> year \<and> year \<le> 9999) then None
      else if \<not> (0 < week \<and> week < 53) \<and>
              \<not> (week = 53 \<and>
                 (let first_weekday = ord_jan1 year mod 7
                  in first_weekday = 4 \<or> (first_weekday = 3 \<and> is_leap year)))
        then None
      else if \<not> (0 < day \<and> day < 8) then None
      else
        (let ord_day = isoweek1monday year + (int week - 1) * 7 + (int day - 1)
         in if ord_day < 1 then None else Some (ord2ymd (nat ord_day))))"

text \<open>
  The parser: the year in four digits, then an optional hyphen. If a \<^verbatim>\<open>W\<close> follows,
  the week in two digits and, unless the string ends there, the day of the week in one
  digit, after a hyphen when the year was followed by one. Otherwise the month and the
  day in two digits each, with a hyphen between them when the year was followed by one.
\<close>

definition parse_isoformat_date :: "string \<Rightarrow> date option" where
  "parse_isoformat_date b =
     (case digits_at b 0 4 of
        None \<Rightarrow> None
      | Some year \<Rightarrow>
          (let uses_separator = has_at b 4 CHR ''-'';
               pos = (if uses_separator then 5 else 4)
           in if has_at b pos CHR ''W'' then
                (case digits_at b (pos + 1) 2 of
                   None \<Rightarrow> None
                 | Some week \<Rightarrow>
                     if length b \<le> pos + 3 then isoweek_to_gregorian year week 1
                     else if uses_separator \<and> \<not> has_at b (pos + 3) CHR ''-'' then None
                     else
                       (case digits_at b (if uses_separator then pos + 4 else pos + 3) 1 of
                          None \<Rightarrow> None
                        | Some day \<Rightarrow> isoweek_to_gregorian year week day))
              else
                (case digits_at b pos 2 of
                   None \<Rightarrow> None
                 | Some month \<Rightarrow>
                     if uses_separator \<and> \<not> has_at b (pos + 2) CHR ''-'' then None
                     else
                       (case digits_at b (if uses_separator then pos + 3 else pos + 2) 2 of
                          None \<Rightarrow> None
                        | Some day \<Rightarrow> Some (year, month, day)))))"

text \<open>
  \<^verbatim>\<open>date.fromisoformat\<close>: the length check, the parser, and the range checks of the
  \<^verbatim>\<open>date\<close> constructor (year 1 to 9999, month 1 to 12, day 1 to the length of the
  month).
\<close>

definition fromisoformat :: "string \<Rightarrow> date option" where
  "fromisoformat s =
     (let b = utf8 s
      in if length b = 7 \<or> length b = 8 \<or> length b = 10 then
           (case parse_isoformat_date b of
              None \<Rightarrow> None
            | Some (y, m, d) \<Rightarrow>
                if 1 \<le> y \<and> y \<le> 9999 \<and> 1 \<le> m \<and> m \<le> 12
                   \<and> 1 \<le> d \<and> d \<le> days_in_month y m
                then Some (y, m, d) else None)
         else None)"

subsection \<open>The validators, continued\<close>

text \<open>
  \<^verbatim>\<open>parse_due_date\<close>: \<^verbatim>\<open>None\<close> passes through; a \<^verbatim>\<open>ValueError\<close> of the library becomes
  a \<^verbatim>\<open>ValidationError\<close> whose message is built from the input.
\<close>

definition parse_due_date :: "string option \<Rightarrow> error + date option" where
  "parse_due_date due_str =
     (case due_str of
        None \<Rightarrow> Inr None
      | Some s \<Rightarrow>
          (case fromisoformat s of
             Some d \<Rightarrow> Inr (Some d)
           | None \<Rightarrow> Inl (ValidationError
                      (''Invalid date format: '' @ s @ ''. Expected YYYY-MM-DD''))))"

section \<open>Service layer (application/services.py)\<close>

text \<open>
  A use case takes the state and returns its outcome together with the state it
  leaves behind: an exception does not undo what was done before it was raised, so the
  state after a failure is part of the result. \<open>propagate\<close> is the propagation of an
  exception raised by a validation, which itself touches no state.
\<close>

definition propagate ::
  "error + 'a \<Rightarrow> state \<Rightarrow> ('a \<Rightarrow> (error + 'b) \<times> state) \<Rightarrow> (error + 'b) \<times> state" where
  "propagate v s k = (case v of Inl e \<Rightarrow> (Inl e, s) | Inr x \<Rightarrow> k x)"

text \<open>\<^verbatim>\<open>f(x) if x is not ... else ...\<close>\<close>

definition unless_ellipsis :: "('a \<Rightarrow> error + 'b) \<Rightarrow> 'a arg \<Rightarrow> error + 'b arg" where
  "unless_ellipsis f a =
     (case a of
        Ellipsis \<Rightarrow> Inr Ellipsis
      | Given x \<Rightarrow> (case f x of Inl e \<Rightarrow> Inl e | Inr y \<Rightarrow> Inr (Given y)))"

text \<open>
  \<^verbatim>\<open>add_task\<close>. The argument \<open>now\<close> is what \<^verbatim>\<open>utc_now()\<close> returns, read after the four
  validations.
\<close>

definition add_task ::
  "string \<Rightarrow> string option \<Rightarrow> string option \<Rightarrow> string option \<Rightarrow> datetime
     \<Rightarrow> state \<Rightarrow> (error + ref) \<times> state" where
  "add_task title_a due priority_a tags_a now s =
     propagate (validate_title title_a) s (\<lambda>validated_title.
     propagate (parse_due_date due) s (\<lambda>due_date_v.
     propagate (validate_priority priority_a) s (\<lambda>validated_priority.
       (let parsed_tags = parse_tags tags_a;
            (r, s') = add validated_title now due_date_v validated_priority
                        (Some parsed_tags) s
        in (Inr r, s')))))"

definition get_task :: "int \<Rightarrow> state \<Rightarrow> error + ref" where
  "get_task task_id s = get task_id s"

definition list_tasks ::
  "StatusFilter \<Rightarrow> string option \<Rightarrow> SortField \<Rightarrow> state \<Rightarrow> ref list" where
  "list_tasks status_a tag_a sort_a s = list_all_tasks status_a tag_a sort_a s"

definition mark_done :: "int \<Rightarrow> state \<Rightarrow> (error + ref) \<times> state" where
  "mark_done task_id s = update task_id None (Some Done) Ellipsis Ellipsis Ellipsis s"

definition reopen_task :: "int \<Rightarrow> state \<Rightarrow> (error + ref) \<times> state" where
  "reopen_task task_id s = update task_id None (Some Open) Ellipsis Ellipsis Ellipsis s"

definition update_task ::
  "int \<Rightarrow> string option \<Rightarrow> string option arg \<Rightarrow> string option arg \<Rightarrow> string option arg
     \<Rightarrow> state \<Rightarrow> (error + ref) \<times> state" where
  "update_task task_id title_a due priority_a tags_a s =
     propagate (case title_a of None \<Rightarrow> Inr None
          | Some t \<Rightarrow> (case validate_title t of Inl e \<Rightarrow> Inl e | Inr v \<Rightarrow> Inr (Some v)))
         s (\<lambda>validated_title.
     propagate (unless_ellipsis parse_due_date due) s (\<lambda>due_date_v.
     propagate (unless_ellipsis validate_priority priority_a) s (\<lambda>validated_priority.
     propagate (unless_ellipsis (\<lambda>t. Inr (Some (parse_tags t))) tags_a) s (\<lambda>parsed_tags.
       update task_id validated_title None due_date_v validated_priority
         parsed_tags s))))"

definition delete_task :: "int \<Rightarrow> state \<Rightarrow> (error + unit) \<times> state" where
  "delete_task task_id s = delete task_id s"

section \<open>An example state\<close>

text \<open>
  Four tasks, the third one done, as left by four calls of \<^verbatim>\<open>add\<close> and one of
  \<^verbatim>\<open>mark_done\<close> (lemma \<open>demo_built\<close> below).
\<close>

definition demo :: state where
  "demo = \<lparr>heap = (\<lambda>_. unallocated)
       (0 := \<lparr>id' = 1, title = ''Later'', status = Open, created_at = 10,
               due_date = Some (2025, 12, 31), priority = Some Low, tags = [''work'']\<rparr>,
        1 := \<lparr>id' = 2, title = ''Soon'', status = Open, created_at = 10,
               due_date = Some (2025, 1, 15), priority = Some High, tags = []\<rparr>,
        2 := \<lparr>id' = 3, title = ''NoDue'', status = Done, created_at = 5,
               due_date = None, priority = None, tags = [''Home'']\<rparr>,
        3 := \<lparr>id' = 4, title = ''Also'', status = Open, created_at = 7,
               due_date = None, priority = Some High, tags = []\<rparr>),
     next_ref = 4, tasks = [(1, 0), (2, 1), (3, 2), (4, 3)], next_id = 5\<rparr>"

section \<open>Sequences of repository operations\<close>

text \<open>
  The calls a client can make on a \<^verbatim>\<open>MemoryTaskRepository\<close>, and the state each leaves
  behind. A call that raises leaves the state it had reached, which for every method
  is the state before the call; the queries do not change the state.
\<close>

datatype op =
    Add string datetime "date option" "Priority option" "string list option"
  | Get int
  | Update int "string option" "Status option" "date option arg" "Priority option arg"
      "string list option arg"
  | Delete int
  | ClearDone
  | ListAll StatusFilter "string option" SortField

fun step :: "op \<Rightarrow> state \<Rightarrow> state" where
  "step (Add t c d p g) s = snd (add t c d p g s)"
| "step (Get i) s = s"
| "step (Update i t st d p g) s = snd (update i t st d p g s)"
| "step (Delete i) s = snd (delete i s)"
| "step ClearDone s = snd (clear_done s)"
| "step (ListAll st tg srt) s = s"

fun is_add :: "op \<Rightarrow> bool" where
  "is_add (Add t c d p g) = True"
| "is_add x = False"

text \<open>
  The ids of the tasks that the \<^verbatim>\<open>add\<close> calls of a sequence return, in the order of
  the calls: the \<^verbatim>\<open>id\<close> attribute of each returned object.
\<close>

fun created_ids :: "op list \<Rightarrow> state \<Rightarrow> int list" where
  "created_ids [] s = []"
| "created_ids (Add t c d p g # ops) s =
     (let (r, s') = add t c d p g s in id' (heap s' r) # created_ids ops s')"
| "created_ids (x # ops) s = created_ids ops (step x s)"

text \<open>The states a repository can be in: those some sequence of calls leads to.\<close>

inductive reachable :: "state \<Rightarrow> bool" where
  reachable_init: "reachable init"
| reachable_step: "reachable s \<Longrightarrow> reachable (step x s)"

section \<open>The orders and selections the specification describes\<close>

text \<open>
  Dated tasks before undated ones; dated ones by ascending date, then ascending id;
  undated ones by ascending id.
\<close>

definition due_ordered :: "Task \<Rightarrow> Task \<Rightarrow> bool" where
  "due_ordered a b =
     (case (due_date a, due_date b) of
        (Some da, Some db) \<Rightarrow> da < db \<or> (da = db \<and> id' a \<le> id' b)
      | (Some da, None) \<Rightarrow> True
      | (None, Some db) \<Rightarrow> False
      | (None, None) \<Rightarrow> id' a \<le> id' b)"

text \<open>High, then med, then low, then no priority; ascending id within a priority.\<close>

fun priority_before :: "Priority option \<Rightarrow> Priority option \<Rightarrow> bool" where
  "priority_before (Some High) q = (q \<noteq> Some High)"
| "priority_before (Some Med) q = (q = Some Low \<or> q = None)"
| "priority_before (Some Low) q = (q = None)"
| "priority_before None q = False"

definition priority_ordered :: "Task \<Rightarrow> Task \<Rightarrow> bool" where
  "priority_ordered a b =
     (priority_before (priority a) (priority b)
      \<or> (priority a = priority b \<and> id' a \<le> id' b))"

text \<open>
  The stored tasks that pass the status filter and the tag filter, in the order of
  the dictionary.
\<close>

definition selected :: "StatusFilter \<Rightarrow> string option \<Rightarrow> state \<Rightarrow> ref list" where
  "selected st tg s =
     filter (\<lambda>r. (case tg of None \<Rightarrow> True
                  | Some x \<Rightarrow> \<exists>y \<in> set (tags (heap s r)). lower y = lower x))
       (filter (\<lambda>r. (case st of All' \<Rightarrow> True | Only v \<Rightarrow> status (heap s r) = v))
          (map snd (tasks s)))"

text \<open>
  What every reachable state satisfies: an entry's key is the id of its task and is
  below the counter, its object is an allocated one, and no key occurs twice.
\<close>

definition repo_inv :: "state \<Rightarrow> bool" where
  "repo_inv s =
     ((\<forall>(k, r) \<in> set (tasks s). id' (heap s r) = k \<and> k < next_id s \<and> r < next_ref s)
      \<and> distinct (map fst (tasks s)))"

text \<open>A caller's \<^verbatim>\<open>task.title = v\<close> on a task object it was handed.\<close>

definition assign_title :: "ref \<Rightarrow> string \<Rightarrow> state \<Rightarrow> state" where
  "assign_title r v s = setattr r (\<lambda>t. t\<lparr>title := v\<rparr>) s"

section \<open>The sequences a listing returns\<close>

text \<open>
  The result of \<^verbatim>\<open>list_all\<close> is a list object of its own: \<^verbatim>\<open>list(self._tasks.values())\<close>,
  each filter and \<^verbatim>\<open>sorted\<close> build a new list, and the last one built is returned. The
  repository keeps no reference to it. A \<open>world\<close> adds these list objects to the state:
  \<open>seqs\<close> maps the address of a list object to its contents, references to task
  objects, and \<open>next_seq\<close> is the first address not yet allocated. \<open>list_all_new\<close> is
  \<^verbatim>\<open>list_all\<close> with its result as an object: the contents are \<open>list_all_tasks\<close>, the
  address is new.
\<close>

record world =
  repo :: state
  seqs :: "ref \<Rightarrow> ref list"
  next_seq :: ref

definition list_all_new ::
  "StatusFilter \<Rightarrow> string option \<Rightarrow> SortField \<Rightarrow> world \<Rightarrow> ref \<times> world" where
  "list_all_new status_a tag_a sort_a w =
     (let l = next_seq w
      in (l, w\<lparr>seqs := (seqs w)(l := list_all_tasks status_a tag_a sort_a (repo w)),
               next_seq := Suc l\<rparr>))"

text \<open>
  What the holder of a list object can do to it in place (\<^verbatim>\<open>append\<close>, \<^verbatim>\<open>remove\<close>,
  \<^verbatim>\<open>sort\<close>, \<^verbatim>\<open>clear\<close>, item assignment): give it other contents.
\<close>

definition assign_seq :: "ref \<Rightarrow> ref list \<Rightarrow> world \<Rightarrow> world" where
  "assign_seq l xs w = w\<lparr>seqs := (seqs w)(l := xs)\<rparr>"

text \<open>
  A call of a repository method, or an assignment to an attribute of a task object:
  neither has a reference to a list object that was returned earlier.
\<close>

definition on_repo :: "(state \<Rightarrow> state) \<Rightarrow> world \<Rightarrow> world" where
  "on_repo f w = w\<lparr>repo := f (repo w)\<rparr>"

definition demo_world :: world where
  "demo_world = \<lparr>repo = demo, seqs = (\<lambda>_. []), next_seq = 0\<rparr>"

section \<open>The textual form of a date\<close>





definition month_lengths :: "nat \<Rightarrow> nat list" where
  "month_lengths y =
     [31, if y mod 4 = 0 \<and> (y mod 100 \<noteq> 0 \<or> y mod 400 = 0) then 29 else 28,
      31, 30, 31, 30, 31, 31, 30, 31, 30, 31]"


section \<open>Verified properties\<close>

lemma demo_built:
  "demo = snd (mark_done 3
     (snd (add ''Also'' 7 None (Some High) None
     (snd (add ''NoDue'' 5 None None (Some [''Home''])
     (snd (add ''Soon'' 10 (Some (2025, 1, 15)) (Some High) (Some [])
     (snd (add ''Later'' 10 (Some (2025, 12, 31)) (Some Low) (Some [''work''])
        init)))))))))"
  by (simp add: demo_def mark_done_def update_def get_def add_def init_def setattr_def
        or_empty_def fun_eq_iff)

lemma heap_demo:
  "heap demo 0 = \<lparr>id' = 1, title = ''Later'', status = Open, created_at = 10,
     due_date = Some (2025, 12, 31), priority = Some Low, tags = [''work'']\<rparr>"
  "heap demo (Suc 0) = \<lparr>id' = 2, title = ''Soon'', status = Open, created_at = 10,
     due_date = Some (2025, 1, 15), priority = Some High, tags = []\<rparr>"
  "heap demo 2 = \<lparr>id' = 3, title = ''NoDue'', status = Done, created_at = 5,
     due_date = None, priority = None, tags = [''Home'']\<rparr>"
  "heap demo 3 = \<lparr>id' = 4, title = ''Also'', status = Open, created_at = 7,
     due_date = None, priority = Some High, tags = []\<rparr>"
  by (simp_all add: demo_def)

lemma tasks_demo: "tasks demo = [(1, 0), (2, 1), (3, 2), (4, 3)]"
  by (simp add: demo_def)

lemma get_demo:
  "get 1 demo = Inr 0" "get 3 demo = Inr 2" "get 99 demo = Inl (TaskNotFoundError 99)"
  by (simp_all add: get_def demo_def)

subsection \<open>Basic facts about the repository operations\<close>

lemma list_all_tasks_sort:
  "list_all_tasks st tg srt s = sort_tasks s (selected st tg s) srt"
  by (cases st; cases tg) (simp_all add: list_all_tasks_def selected_def)

lemma fold_delete_tasks:
  "tasks (fold (\<lambda>tid s'. s'\<lparr>tasks := AList.delete tid (tasks s')\<rparr>) ids s) =
     filter (\<lambda>(k, r). k \<notin> set ids) (tasks s)"
  by (induction ids arbitrary: s) (auto simp: AList.delete_eq intro: filter_cong)

lemma fold_delete_rest:
  "heap (fold (\<lambda>tid s'. s'\<lparr>tasks := AList.delete tid (tasks s')\<rparr>) ids s) = heap s"
  "next_id (fold (\<lambda>tid s'. s'\<lparr>tasks := AList.delete tid (tasks s')\<rparr>) ids s) = next_id s"
  "next_ref (fold (\<lambda>tid s'. s'\<lparr>tasks := AList.delete tid (tasks s')\<rparr>) ids s) = next_ref s"
  by (induction ids arbitrary: s) auto

subsection \<open>Update semantics\<close>

text \<open>
  C1. For an existing task id, \<^verbatim>\<open>update\<close> (and the service's \<^verbatim>\<open>update_task\<close>) with no
  field provided returns the task and leaves the whole state as it was. With
  \<^verbatim>\<open>due_date\<close> provided as \<^verbatim>\<open>None\<close>, the task's due date becomes absent, its priority,
  tags and every other attribute stay as they were, and so do all other objects, the
  dictionary and the id counter.
\<close>

theorem update_three_valued:
  "get task_id s = Inr r \<Longrightarrow>
     update task_id None None Ellipsis Ellipsis Ellipsis s = (Inr r, s) \<and>
     update_task task_id None Ellipsis Ellipsis Ellipsis s = (Inr r, s) \<and>
     (let s' = snd (update task_id None None (Given None) Ellipsis Ellipsis s) in
        update task_id None None (Given None) Ellipsis Ellipsis s = (Inr r, s') \<and>
        update_task task_id None (Given None) Ellipsis Ellipsis s = (Inr r, s') \<and>
        heap s' r = (heap s r)\<lparr>due_date := None\<rparr> \<and>
        due_date (heap s' r) = None \<and>
        priority (heap s' r) = priority (heap s r) \<and>
        tags (heap s' r) = tags (heap s r) \<and>
        (\<forall>r'. r' \<noteq> r \<longrightarrow> heap s' r' = heap s r') \<and>
        tasks s' = tasks s \<and> next_id s' = next_id s \<and> next_ref s' = next_ref s)"
  by (simp add: update_def update_task_def propagate_def unless_ellipsis_def
        parse_due_date_def setattr_def)

theorem update_three_valued_witness:
  "get 1 demo = Inr 0 \<and>
   update_task 1 None Ellipsis Ellipsis Ellipsis demo = (Inr 0, demo) \<and>
   heap (snd (update_task 1 None (Given None) Ellipsis Ellipsis demo)) 0 =
     \<lparr>id' = 1, title = ''Later'', status = Open, created_at = 10,
      due_date = None, priority = Some Low, tags = [''work'']\<rparr>"
  using update_three_valued [of 1 demo 0]
  by (simp add: get_demo Let_def) (simp add: demo_def)

subsection \<open>Failures leave the state alone\<close>

text \<open>
  C3. When \<^verbatim>\<open>add_task\<close>, \<^verbatim>\<open>update_task\<close>, \<^verbatim>\<open>mark_done\<close>, \<^verbatim>\<open>reopen_task\<close> or
  \<^verbatim>\<open>delete_task\<close> raises (the outcome is an error, which is a \<^verbatim>\<open>ValidationError\<close> or a
  \<^verbatim>\<open>TaskNotFoundError\<close>), the state after the call is the state before it: the same
  objects, the same dictionary and the same id counter.
\<close>

lemma propagate_fail:
  "isl (fst (propagate v s k)) \<Longrightarrow>
   (\<And>x. v = Inr x \<Longrightarrow> isl (fst (k x)) \<Longrightarrow> snd (k x) = s) \<Longrightarrow>
   snd (propagate v s k) = s"
  by (cases v) (simp_all add: propagate_def)

lemma update_fail:
  "isl (fst (update i t st d p g s)) \<Longrightarrow> snd (update i t st d p g s) = s"
  by (cases "get i s") (simp_all add: update_def Let_def)

lemma add_task_fail:
  "isl (fst (add_task t d p g now s)) \<Longrightarrow> snd (add_task t d p g now s) = s"
  unfolding add_task_def
  by (erule propagate_fail)+ (simp add: Let_def split: prod.splits)

lemma update_task_fail:
  "isl (fst (update_task i t d p g s)) \<Longrightarrow> snd (update_task i t d p g s) = s"
  unfolding update_task_def
  by (erule propagate_fail)+ (rule update_fail)

lemma delete_fail: "isl (fst (delete i s)) \<Longrightarrow> snd (delete i s) = s"
  by (simp add: delete_def split: if_splits)

theorem failure_leaves_state_unchanged:
  "(isl (fst (add_task t d p g now s)) \<longrightarrow> snd (add_task t d p g now s) = s) \<and>
   (isl (fst (update_task i t' d' p' g' s)) \<longrightarrow> snd (update_task i t' d' p' g' s) = s) \<and>
   (isl (fst (mark_done j s)) \<longrightarrow> snd (mark_done j s) = s) \<and>
   (isl (fst (reopen_task k s)) \<longrightarrow> snd (reopen_task k s) = s) \<and>
   (isl (fst (delete_task l s)) \<longrightarrow> snd (delete_task l s) = s)"
  using add_task_fail update_task_fail update_fail delete_fail
  by (simp add: mark_done_def reopen_task_def delete_task_def)

theorem failure_leaves_state_unchanged_witness:
  "isl (fst (add_task ''  '' None None None 0 demo)) \<and>
   snd (add_task ''  '' None None None 0 demo) = demo \<and>
   isl (fst (update_task 1 None (Given (Some ''2025-02-30'')) Ellipsis Ellipsis demo)) \<and>
   snd (update_task 1 None (Given (Some ''2025-02-30'')) Ellipsis Ellipsis demo) = demo \<and>
   isl (fst (mark_done 99 demo)) \<and> snd (mark_done 99 demo) = demo \<and>
   isl (fst (reopen_task 99 demo)) \<and> snd (reopen_task 99 demo) = demo \<and>
   isl (fst (delete_task 99 demo)) \<and> snd (delete_task 99 demo) = demo"
proof -
  have a: "isl (fst (add_task ''  '' None None None 0 demo))"
    by code_simp
  have b: "isl (fst (update_task 1 None (Given (Some ''2025-02-30'')) Ellipsis Ellipsis demo))"
    by code_simp
  have c: "isl (fst (mark_done 99 demo))" "isl (fst (reopen_task 99 demo))"
    "isl (fst (delete_task 99 demo))"
    by code_simp+
  show ?thesis
    using failure_leaves_state_unchanged [where s = demo and t = "''  ''" and d = None
        and p = None and g = None and now = 0 and i = 1 and t' = None
        and d' = "Given (Some ''2025-02-30'')" and p' = Ellipsis and g' = Ellipsis
        and j = 99 and k = 99 and l = 99] a b c
    by blast
qed

subsection \<open>Status transitions\<close>

text \<open>
  C9. For an existing task id, \<^verbatim>\<open>mark_done\<close> and \<^verbatim>\<open>reopen_task\<close> succeed whatever the
  task's status is, set the status to done respectively open and change nothing else,
  and calling one of them a second time returns the same task and the same state as
  the first call did.
\<close>

theorem mark_done_reopen_idempotent:
  "get task_id s = Inr r \<Longrightarrow>
     mark_done task_id s = (Inr r, setattr r (\<lambda>t. t\<lparr>status := Done\<rparr>) s) \<and>
     heap (snd (mark_done task_id s)) r = (heap s r)\<lparr>status := Done\<rparr> \<and>
     mark_done task_id (snd (mark_done task_id s)) = mark_done task_id s \<and>
     reopen_task task_id s = (Inr r, setattr r (\<lambda>t. t\<lparr>status := Open\<rparr>) s) \<and>
     heap (snd (reopen_task task_id s)) r = (heap s r)\<lparr>status := Open\<rparr> \<and>
     reopen_task task_id (snd (reopen_task task_id s)) = reopen_task task_id s"
  by (simp add: mark_done_def reopen_task_def update_def setattr_def get_def)

theorem mark_done_reopen_idempotent_witness:
  "get 3 demo = Inr 2 \<and> status (heap demo 2) = Done \<and>
   mark_done 3 demo = (Inr 2, demo) \<and>
   status (heap (snd (reopen_task 3 demo)) 2) = Open \<and>
   reopen_task 3 (snd (reopen_task 3 demo)) = reopen_task 3 demo"
proof -
  have g: "get 3 demo = Inr 2"
    by (simp add: get_def demo_def)
  have d: "setattr 2 (\<lambda>t. t\<lparr>status := Done\<rparr>) demo = demo"
    by (simp add: setattr_def demo_def fun_eq_iff)
  have h: "status (heap demo 2) = Done"
    by (simp add: demo_def)
  note m = mark_done_reopen_idempotent [OF g]
  have "mark_done 3 demo = (Inr 2, demo)"
    using m d by simp
  moreover have "status (heap (snd (reopen_task 3 demo)) 2) = Open"
  proof -
    from m have "heap (snd (reopen_task 3 demo)) 2 = (heap demo 2)\<lparr>status := Open\<rparr>"
      by blast
    then show ?thesis by simp
  qed
  moreover have "reopen_task 3 (snd (reopen_task 3 demo)) = reopen_task 3 demo"
    using m by blast
  ultimately show ?thesis
    using g h by blast
qed

subsection \<open>Listing: sort orders\<close>

lemma due_key_le: "due_key a \<le> due_key b \<longleftrightarrow> due_ordered a b"
  by (auto simp: due_key_def due_ordered_def less_eq_prod_def split: option.splits)

lemma priority_order_less:
  "priority_order p < priority_order q \<longleftrightarrow> priority_before p q"
proof (cases p)
  case None
  then show ?thesis by (simp add: priority_order_def split: option.splits Priority.splits)
next
  case (Some a)
  then show ?thesis
    by (cases a; cases q) (auto simp: priority_order_def split: Priority.splits)
qed

lemma priority_order_eq: "priority_order p = priority_order q \<longleftrightarrow> p = q"
  by (auto simp: priority_order_def split: option.splits Priority.splits)

lemma priority_key_le: "priority_key a \<le> priority_key b \<longleftrightarrow> priority_ordered a b"
  unfolding priority_key_def priority_ordered_def less_eq_prod_def fst_conv snd_conv
    priority_order_less [symmetric] priority_order_eq [symmetric]
  by auto

text \<open>
  C6. For every state and every filter, the list \<^verbatim>\<open>list_all\<close> returns with
  \<^verbatim>\<open>sort="due"\<close> holds exactly the tasks that pass the filters, and any task in it
  stands in the relation \<open>due_ordered\<close> to every later one: a dated task is never after
  an undated one, two dated tasks are in ascending order of date (year, month, day) and,
  on the same date, of id, and two undated tasks are in ascending order of id.
\<close>

theorem list_sorted_by_due:
  "sorted_wrt due_ordered (map (heap s) (list_all_tasks st tg ByDue s)) \<and>
   mset (list_all_tasks st tg ByDue s) = mset (selected st tg s)"
proof -
  have "sorted (map (\<lambda>r. due_key (heap s r)) (list_all_tasks st tg ByDue s))"
    by (simp add: list_all_tasks_sort sort_tasks_def)
  then show ?thesis
    by (simp add: sorted_map sorted_wrt_map due_key_le list_all_tasks_sort sort_tasks_def)
qed

text \<open>
  C7. For every state and every filter, the list \<^verbatim>\<open>list_all\<close> returns with
  \<^verbatim>\<open>sort="priority"\<close> holds exactly the tasks that pass the filters, and any task in
  it stands in the relation \<open>priority_ordered\<close> to every later one: high before med
  before low before no priority, and ascending id among tasks of the same priority.
\<close>

theorem list_sorted_by_priority:
  "sorted_wrt priority_ordered (map (heap s) (list_all_tasks st tg ByPriority s)) \<and>
   mset (list_all_tasks st tg ByPriority s) = mset (selected st tg s)"
proof -
  have "sorted (map (\<lambda>r. priority_key (heap s r)) (list_all_tasks st tg ByPriority s))"
    by (simp add: list_all_tasks_sort sort_tasks_def)
  then show ?thesis
    by (simp add: sorted_map sorted_wrt_map priority_key_le list_all_tasks_sort sort_tasks_def)
qed

lemma list_demo_due: "list_all_tasks All' None ByDue demo = [1, 0, 2, 3]"
  by (simp add: list_all_tasks_def sort_tasks_def tasks_demo heap_demo due_key_def
        date_max_def less_eq_prod_def)

lemma list_demo_priority: "list_all_tasks All' None ByPriority demo = [1, 3, 0, 2]"
  by (simp add: list_all_tasks_def sort_tasks_def tasks_demo heap_demo priority_key_def
        priority_order_def less_eq_prod_def)

theorem list_sorted_by_due_witness:
  "list_all_tasks All' None ByDue demo = [1, 0, 2, 3] \<and>
   sorted_wrt due_ordered (map (heap demo) [1, 0, 2, 3]) \<and>
   map (title \<circ> heap demo) [1, 0, 2, 3] = [''Soon'', ''Later'', ''NoDue'', ''Also'']"
  using list_sorted_by_due [of demo All' None] list_demo_due
  by (simp add: heap_demo)

theorem list_sorted_by_priority_witness:
  "list_all_tasks All' None ByPriority demo = [1, 3, 0, 2] \<and>
   sorted_wrt priority_ordered (map (heap demo) [1, 3, 0, 2]) \<and>
   map (title \<circ> heap demo) [1, 3, 0, 2] = [''Soon'', ''Also'', ''Later'', ''NoDue'']"
  using list_sorted_by_priority [of demo All' None] list_demo_priority
  by (simp add: heap_demo)

subsection \<open>Clearing the completed tasks\<close>

lemma map_of_filter_distinct:
  "distinct (map fst al) \<Longrightarrow> map_of al k = Some v \<Longrightarrow>
     map_of (filter (\<lambda>(k', v'). P k' v') al) k = (if P k v then Some v else None)"
proof (induction al)
  case Nil
  then show ?case by simp
next
  case (Cons a al)
  obtain k' v' where a: "a = (k', v')" by (cases a)
  show ?case
  proof (cases "k' = k")
    case True
    with Cons.prems a have "v' = v" "k \<notin> fst ` set al" by auto
    then have "map_of (filter (\<lambda>(k', v'). P k' v') al) k = None"
      by (auto simp: map_of_eq_None_iff)
    with True a \<open>v' = v\<close> show ?thesis by simp
  next
    case False
    with Cons a show ?thesis by simp
  qed
qed

lemma done_ids_mem:
  "distinct (map fst (tasks s)) \<Longrightarrow> (k, r) \<in> set (tasks s) \<Longrightarrow>
     k \<in> set (done_ids s) \<longleftrightarrow> status (heap s r) = Done"
  by (force simp: done_ids_def dest: eq_key_imp_eq_value)

lemma clear_done_tasks:
  assumes "distinct (map fst (tasks s))"
  shows "tasks (snd (clear_done s)) =
           filter (\<lambda>(tid, r). status (heap s r) \<noteq> Done) (tasks s)"
proof -
  have "filter (\<lambda>(k, r). k \<notin> set (done_ids s)) (tasks s) =
        filter (\<lambda>(tid, r). status (heap s r) \<noteq> Done) (tasks s)"
    by (rule filter_cong) (auto simp: done_ids_mem [OF assms])
  then show ?thesis
    by (simp add: clear_done_def fold_delete_tasks)
qed

lemma done_set:
  assumes "distinct (map fst (tasks s))"
  shows "{tid. \<exists>r. get tid s = Inr r \<and> status (heap s r) = Done} = set (done_ids s)"
proof -
  have "get tid s = Inr r \<longleftrightarrow> (tid, r) \<in> set (tasks s)" for tid r
    by (simp add: get_def map_of_eq_Some_iff [OF assms, symmetric] split: option.splits)
  then show ?thesis
    by (force simp: done_ids_def)
qed

lemma distinct_done_ids:
  "distinct (map fst (tasks s)) \<Longrightarrow> distinct (done_ids s)"
  unfolding done_ids_def by (rule distinct_map_filter)

text \<open>
  C5. In every state (the keys of a dictionary are distinct), \<^verbatim>\<open>clear_done\<close> returns
  the number of ids whose task is done before the call and leaves the dictionary with
  exactly the entries whose task is not done, in their order. A task that was done is
  no longer found; one that was not is found under its id as the same object; no object
  is changed, nor the id counter; and \<^verbatim>\<open>list_all(status="done")\<close> is then empty for
  every tag filter and sort field.
\<close>

theorem clear_done_postcondition:
  assumes "distinct (map fst (tasks s))"
  shows "(let n = fst (clear_done s); s' = snd (clear_done s) in
       n = card {tid. \<exists>r. get tid s = Inr r \<and> status (heap s r) = Done} \<and>
       tasks s' = filter (\<lambda>(tid, r). status (heap s r) \<noteq> Done) (tasks s) \<and>
       (\<forall>tid r. get tid s = Inr r \<longrightarrow>
          (if status (heap s r) = Done then get tid s' = Inl (TaskNotFoundError tid)
           else get tid s' = Inr r)) \<and>
       (\<forall>tid. isl (get tid s) \<longrightarrow> isl (get tid s')) \<and>
       heap s' = heap s \<and> next_id s' = next_id s \<and> next_ref s' = next_ref s \<and>
       (\<forall>tg srt. list_all_tasks (Only Done) tg srt s' = []))"
proof -
  let ?s' = "snd (clear_done s)"
  have t: "tasks ?s' = filter (\<lambda>(tid, r). status (heap s r) \<noteq> Done) (tasks s)"
    by (rule clear_done_tasks [OF assms])
  have h: "heap ?s' = heap s" "next_id ?s' = next_id s" "next_ref ?s' = next_ref s"
    by (simp_all add: clear_done_def fold_delete_rest)
  have n: "fst (clear_done s) = card {tid. \<exists>r. get tid s = Inr r \<and> status (heap s r) = Done}"
    by (simp add: done_set [OF assms] distinct_card [OF distinct_done_ids [OF assms]]
          clear_done_def)
  have g1: "get tid ?s' = (if status (heap s r) = Done then Inl (TaskNotFoundError tid)
              else Inr r)" if "get tid s = Inr r" for tid r
  proof -
    from that have "map_of (tasks s) tid = Some r"
      by (simp add: get_def split: option.splits)
    from map_of_filter_distinct [OF assms this, of "\<lambda>k v. status (heap s v) \<noteq> Done"]
    show ?thesis by (simp add: get_def t)
  qed
  have g2: "isl (get tid ?s')" if "isl (get tid s)" for tid
  proof -
    from that have "tid \<notin> fst ` set (tasks s)"
      by (auto simp: get_def map_of_eq_None_iff split: option.splits)
    then have "tid \<notin> fst ` set (tasks ?s')"
      by (auto simp: t)
    then show ?thesis
      by (simp add: get_def map_of_eq_None_iff [symmetric])
  qed
  have l: "list_all_tasks (Only Done) tg srt ?s' = []" for tg srt
  proof -
    have "filter (\<lambda>r. status (heap ?s' r) = Done) (map snd (tasks ?s')) = []"
      by (auto simp: t h filter_empty_conv)
    then have "selected (Only Done) tg ?s' = []"
      by (simp add: selected_def)
    then show ?thesis
      by (cases srt) (simp_all add: list_all_tasks_sort sort_tasks_def)
  qed
  show ?thesis
    unfolding Let_def using n t h g1 g2 l by auto
qed

theorem clear_done_postcondition_witness:
  "distinct (map fst (tasks demo)) \<and> fst (clear_done demo) = 1 \<and>
   tasks (snd (clear_done demo)) = [(1, 0), (2, 1), (4, 3)] \<and>
   get 3 (snd (clear_done demo)) = Inl (TaskNotFoundError 3) \<and>
   get 1 (snd (clear_done demo)) = Inr 0 \<and>
   heap (snd (clear_done demo)) = heap demo \<and>
   list_all_tasks (Only Done) None ByCreated (snd (clear_done demo)) = []"
proof -
  have d: "distinct (map fst (tasks demo))"
    by (simp add: tasks_demo)
  note c = clear_done_postcondition [OF d, unfolded Let_def]
  have "tasks (snd (clear_done demo)) = [(1, 0), (2, 1), (4, 3)]"
    using c by (simp add: tasks_demo heap_demo)
  moreover have "fst (clear_done demo) = 1"
    by (simp add: clear_done_def done_ids_def tasks_demo heap_demo)
  moreover have "get 3 (snd (clear_done demo)) = Inl (TaskNotFoundError 3)"
    "get 1 (snd (clear_done demo)) = Inr 0"
    using c get_demo by (simp_all add: heap_demo)
  ultimately show ?thesis
    using c d by simp
qed

subsection \<open>Assignment of ids\<close>

lemma next_id_step:
  "next_id (step x s) = (if is_add x then next_id s + 1 else next_id s)"
proof (cases x)
  case (Update i t st d p g)
  then show ?thesis
    by (cases "get i s")
       (simp_all add: update_def setattr_def Let_def split: option.splits arg.splits)
qed (simp_all add: add_def delete_def clear_done_def fold_delete_rest Let_def)

lemma created_ids_upto:
  "created_ids ops s = [next_id s .. next_id s + int (length (filter is_add ops)) - 1]"
proof (induction ops s rule: created_ids.induct)
  case (1 s)
  then show ?case by simp
next
  case (2 t c d p g ops s)
  obtain r s' where a: "add t c d p g s = (r, s')" by (cases "add t c d p g s")
  then have i: "id' (heap s' r) = next_id s" and n: "next_id s' = next_id s + 1"
    by (auto simp: add_def Let_def)
  from "2.IH" [of "(r, s')" r s'] a
  have "created_ids ops s' = [next_id s' .. next_id s' + int (length (filter is_add ops)) - 1]"
    by simp
  with a i n show ?case
    by (simp add: upto_rec1 [of "next_id s"] add.commute add.left_commute)
qed (simp_all add: next_id_step del: step.simps)

text \<open>
  C2. For every sequence of repository calls from the initial state (\<^verbatim>\<open>add\<close>
  interleaved with \<^verbatim>\<open>delete\<close>, \<^verbatim>\<open>clear_done\<close>, \<^verbatim>\<open>update\<close> and the queries, whether
  they succeed or raise), the ids of the tasks returned by the \<^verbatim>\<open>add\<close> calls are
  1, 2, ..., n in this order, n being the number of \<^verbatim>\<open>add\<close> calls: they start at 1,
  grow by one per call, are strictly increasing and no id is given twice.
\<close>

theorem ids_monotonic_never_reused:
  "created_ids ops init = [1 .. int (length (filter is_add ops))] \<and>
   sorted_wrt (<) (created_ids ops init) \<and>
   distinct (created_ids ops init)"
  by (simp add: created_ids_upto init_def sorted_wrt_upto)

theorem ids_monotonic_never_reused_witness:
  "created_ids [Add ''a'' 0 None None None, Delete 1, Add ''b'' 0 None None None,
     Update 2 None (Some Done) Ellipsis Ellipsis Ellipsis, ClearDone,
     Add ''c'' 0 None None None] init = [1, 2, 3]"
  using ids_monotonic_never_reused [of "[Add ''a'' 0 None None None, Delete 1,
     Add ''b'' 0 None None None, Update 2 None (Some Done) Ellipsis Ellipsis Ellipsis,
     ClearDone, Add ''c'' 0 None None None]"]
  by (simp add: upto_rec1)

subsection \<open>The invariant of the repository\<close>

lemma update_append:
  "k \<notin> fst ` set al \<Longrightarrow> AList.update k v al = al @ [(k, v)]"
  by (induction al) auto

lemma update_frame:
  "tasks (snd (update i t st d p g s)) = tasks s"
  "next_id (snd (update i t st d p g s)) = next_id s"
  "next_ref (snd (update i t st d p g s)) = next_ref s"
  "id' (heap (snd (update i t st d p g s)) x) = id' (heap s x)"
  by (cases "get i s";
      simp add: update_def setattr_def Let_def split: option.splits arg.splits)+

lemma repo_inv_init: "repo_inv init"
  by (simp add: repo_inv_def init_def)

lemma fresh_id: "repo_inv s \<Longrightarrow> next_id s \<notin> fst ` set (tasks s)"
  by (force simp: repo_inv_def)

lemma repo_inv_add:
  assumes "repo_inv s"
  shows "repo_inv (snd (add t c d p g s))"
proof -
  have "tasks (snd (add t c d p g s)) = tasks s @ [(next_id s, next_ref s)]"
    by (simp add: add_def Let_def update_append [OF fresh_id [OF assms]])
  with assms fresh_id [OF assms] show ?thesis
    by (fastforce simp: repo_inv_def add_def Let_def)
qed

lemma repo_inv_update:
  "repo_inv s \<Longrightarrow> repo_inv (snd (update i t st d p g s))"
  by (simp add: repo_inv_def update_frame)

lemma repo_inv_filter:
  assumes "repo_inv s" and "tasks s' = filter P (tasks s)"
    and "heap s' = heap s" and "next_id s' = next_id s" and "next_ref s' = next_ref s"
  shows "repo_inv s'"
  using assms by (auto simp: repo_inv_def distinct_map_filter)

lemma repo_inv_delete: "repo_inv s \<Longrightarrow> repo_inv (snd (delete i s))"
  by (cases "map_of (tasks s) i = None")
     (auto simp: delete_def AList.delete_eq elim: repo_inv_filter)

lemma repo_inv_clear_done: "repo_inv s \<Longrightarrow> repo_inv (snd (clear_done s))"
  by (erule repo_inv_filter)
     (simp_all add: clear_done_def fold_delete_tasks fold_delete_rest)

lemma repo_inv_step: "repo_inv s \<Longrightarrow> repo_inv (step x s)"
  by (cases x)
     (simp_all add: repo_inv_add repo_inv_update repo_inv_delete repo_inv_clear_done)

lemma reachable_inv: "reachable s \<Longrightarrow> repo_inv s"
  by (induction rule: reachable.induct) (simp_all add: repo_inv_init repo_inv_step)

text \<open>
  C10. In every state that a sequence of repository calls reaches from the initial
  state, each entry of the dictionary is keyed by the id of its task, the keys are
  pairwise distinct and every key is below the counter \<^verbatim>\<open>_next_id\<close>. So the counter is
  not a key, and \<^verbatim>\<open>add\<close> overwrites nothing: every task found before it is found after
  it, as the same unchanged object.
\<close>

theorem reachable_well_formed:
  assumes "reachable s"
  shows "(\<forall>(k, r) \<in> set (tasks s). id' (heap s r) = k \<and> k < next_id s) \<and>
     distinct (map fst (tasks s)) \<and>
     get (next_id s) s = Inl (TaskNotFoundError (next_id s)) \<and>
     (\<forall>t c d p g k r. get k s = Inr r \<longrightarrow>
        get k (snd (add t c d p g s)) = Inr r \<and> heap (snd (add t c d p g s)) r = heap s r)"
proof -
  have inv: "repo_inv s" by (rule reachable_inv [OF assms])
  have fresh: "next_id s \<notin> fst ` set (tasks s)" by (rule fresh_id [OF inv])
  have a: "(\<forall>(k, r) \<in> set (tasks s). id' (heap s r) = k \<and> k < next_id s)"
    using inv by (auto simp: repo_inv_def)
  have b: "distinct (map fst (tasks s))"
    using inv by (simp add: repo_inv_def)
  have c: "get (next_id s) s = Inl (TaskNotFoundError (next_id s))"
    using fresh by (simp add: get_def map_of_eq_None_iff [symmetric])
  have d: "get k (snd (add t c d p g s)) = Inr r \<and> heap (snd (add t c d p g s)) r = heap s r"
    if "get k s = Inr r" for t c d p g k r
  proof -
    from that have m: "map_of (tasks s) k = Some r"
      by (simp add: get_def split: option.splits)
    then have "(k, r) \<in> set (tasks s)" by (rule map_of_SomeD)
    with inv have "r < next_ref s" "k \<noteq> next_id s"
      by (auto simp: repo_inv_def)
    with m show ?thesis
      by (simp add: add_def Let_def get_def update_conv')
  qed
  from a b c d show ?thesis by blast
qed

lemma demo_reachable: "reachable demo"
proof -
  have e: "demo = step (Update 3 None (Some Done) Ellipsis Ellipsis Ellipsis)
     (step (Add ''Also'' 7 None (Some High) None)
     (step (Add ''NoDue'' 5 None None (Some [''Home'']))
     (step (Add ''Soon'' 10 (Some (2025, 1, 15)) (Some High) (Some []))
     (step (Add ''Later'' 10 (Some (2025, 12, 31)) (Some Low) (Some [''work''])) init))))"
    by (simp add: demo_built mark_done_def)
  show ?thesis
    by (subst e) (intro reachable.intros)
qed

theorem reachable_well_formed_witness:
  "reachable demo \<and> id' (heap demo 2) = 3 \<and> 3 < next_id demo \<and>
   get 5 demo = Inl (TaskNotFoundError 5) \<and>
   get 1 (snd (add ''New'' 0 None None None demo)) = Inr 0"
  using reachable_well_formed [OF demo_reachable] demo_reachable get_demo
  by (simp add: heap_demo) (simp add: demo_def)

subsection \<open>What a query hands out\<close>

lemma list_demo_created: "list_all_tasks All' None ByCreated demo = [2, 3, 0, 1]"
  by (simp add: list_all_tasks_def sort_tasks_def tasks_demo heap_demo created_key_def
        less_eq_prod_def)

lemma assign_title_demo:
  "tasks (assign_title 0 ''changed'' demo) = tasks demo"
  "heap (assign_title 0 ''changed'' demo) 0 = (heap demo 0)\<lparr>title := ''changed''\<rparr>"
  "heap (assign_title 0 ''changed'' demo) (Suc 0) = heap demo (Suc 0)"
  "heap (assign_title 0 ''changed'' demo) 2 = heap demo 2"
  "heap (assign_title 0 ''changed'' demo) 3 = heap demo 3"
  by (simp_all add: assign_title_def setattr_def)

text \<open>
  C4, as stated, fails. In the example state \<^verbatim>\<open>get(1)\<close> returns the object at address
  0, which \<^verbatim>\<open>list_all\<close> returns as well. After the caller assigns
  \<^verbatim>\<open>task.title = "changed"\<close> to it, without any call to the repository, \<^verbatim>\<open>get(1)\<close>
  returns a task titled "changed" and \<^verbatim>\<open>list_all\<close> lists that title in place of
  "Later".
\<close>

theorem query_isolation_counterexample:
  "get 1 demo = Inr 0 \<and>
   list_all_tasks All' None ByCreated demo = [2, 3, 0, 1] \<and>
   map (title \<circ> heap demo) [2, 3, 0, 1] = [''NoDue'', ''Also'', ''Later'', ''Soon''] \<and>
   get 1 (assign_title 0 ''changed'' demo) = Inr 0 \<and>
   title (heap (assign_title 0 ''changed'' demo) 0) = ''changed'' \<and>
   list_all_tasks All' None ByCreated (assign_title 0 ''changed'' demo) = [2, 3, 0, 1] \<and>
   map (title \<circ> heap (assign_title 0 ''changed'' demo)) [2, 3, 0, 1] =
     [''NoDue'', ''Also'', ''changed'', ''Soon'']"
proof -
  have "list_all_tasks All' None ByCreated (assign_title 0 ''changed'' demo) = [2, 3, 0, 1]"
    by (simp add: list_all_tasks_def sort_tasks_def assign_title_demo tasks_demo heap_demo
          created_key_def less_eq_prod_def)
  then show ?thesis
    by (simp add: list_demo_created get_def assign_title_demo tasks_demo heap_demo)
qed

lemma mset_sort_tasks: "mset (sort_tasks s rs srt) = mset rs"
  by (cases srt) (simp_all add: sort_tasks_def)

lemma set_list_all_tasks: "set (list_all_tasks st tg srt s) \<subseteq> snd ` set (tasks s)"
proof -
  have "set (list_all_tasks st tg srt s) = set (selected st tg s)"
    by (simp add: list_all_tasks_sort mset_sort_tasks [THEN mset_eq_setD])
  then show ?thesis
    by (auto simp: selected_def)
qed

lemma get_stored: "get i s = Inr r \<Longrightarrow> (i, r) \<in> set (tasks s)"
  by (auto simp: get_def split: option.splits dest: map_of_SomeD)

lemma listed_after_setattr:
  "mset (map (heap (setattr r f s)) (list_all_tasks All' None srt (setattr r f s))) =
   mset (map (\<lambda>x. if x = r then f (heap s r) else heap s x) (map snd (tasks s)))"
proof -
  have "mset (list_all_tasks All' None srt (setattr r f s)) = mset (map snd (tasks s))"
    by (simp add: list_all_tasks_sort mset_sort_tasks selected_def setattr_def)
  then have "mset (map (heap (setattr r f s)) (list_all_tasks All' None srt (setattr r f s))) =
      mset (map (heap (setattr r f s)) (map snd (tasks s)))"
    by (metis mset_map)
  moreover have "heap (setattr r f s) = (\<lambda>x. if x = r then f (heap s r) else heap s x)"
    by (auto simp: setattr_def)
  ultimately show ?thesis by simp
qed

text \<open>
  C4, amended. The sequence that \<^verbatim>\<open>list_all\<close> returns is a newly built list object and
  not a view of the storage: its address was not allocated before the call, a change
  made to it in place leaves the repository as it was (a later listing is another
  object, with the contents computed from the unchanged repository), and no later
  repository call changes its contents. The tasks, however, are shared: every element
  of the returned sequence, like the result of \<^verbatim>\<open>get\<close>, is a stored \<^verbatim>\<open>Task\<close> object, the
  value of an entry of the dictionary, and an assignment to one of its attributes by the
  caller changes the stored task as every later \<^verbatim>\<open>get\<close> and \<^verbatim>\<open>list_all\<close> reads it: the
  tasks then listed are the stored ones with the assigned one replaced. The assignment
  changes nothing else: which object an id leads to, the id counter, the attributes of
  the other task objects and the list objects returned earlier stay as they were.
\<close>

theorem listing_is_new_tasks_are_shared:
  assumes "list_all_new st tg srt w = (l, w')"
  shows "l = next_seq w \<and> next_seq w' = Suc l \<and> repo w' = repo w \<and>
     seqs w' l = list_all_tasks st tg srt (repo w) \<and>
     (\<forall>l'. l' \<noteq> l \<longrightarrow> seqs w' l' = seqs w l') \<and>
     (\<forall>xs. repo (assign_seq l xs w') = repo w \<and>
        (\<forall>st' tg' srt'.
           fst (list_all_new st' tg' srt' (assign_seq l xs w')) \<noteq> l \<and>
           seqs (snd (list_all_new st' tg' srt' (assign_seq l xs w')))
             (fst (list_all_new st' tg' srt' (assign_seq l xs w'))) =
             list_all_tasks st' tg' srt' (repo w))) \<and>
     (\<forall>x. seqs (on_repo (step x) w') l = list_all_tasks st tg srt (repo w)) \<and>
     (\<forall>r f. r \<in> set (seqs w' l) \<or> (\<exists>i. get i (repo w) = Inr r) \<longrightarrow>
        (\<exists>k. (k, r) \<in> set (tasks (repo w))) \<and>
        (\<forall>i. get i (setattr r f (repo w)) = get i (repo w)) \<and>
        heap (setattr r f (repo w)) r = f (heap (repo w) r) \<and>
        (\<forall>r'. r' \<noteq> r \<longrightarrow> heap (setattr r f (repo w)) r' = heap (repo w) r') \<and>
        tasks (setattr r f (repo w)) = tasks (repo w) \<and>
        next_id (setattr r f (repo w)) = next_id (repo w) \<and>
        seqs (on_repo (setattr r f) w') l = seqs w' l \<and>
        (\<forall>srt'. mset (map (heap (setattr r f (repo w)))
                     (list_all_tasks All' None srt' (setattr r f (repo w)))) =
                 mset (map (\<lambda>x. if x = r then f (heap (repo w) r) else heap (repo w) x)
                     (map snd (tasks (repo w))))))"
proof -
  from assms have l: "l = next_seq w"
    and w': "w' = w\<lparr>seqs := (seqs w)(l := list_all_tasks st tg srt (repo w)),
                    next_seq := Suc l\<rparr>"
    by (auto simp: list_all_new_def Let_def)
  have fresh: "l = next_seq w \<and> next_seq w' = Suc l \<and> repo w' = repo w \<and>
     seqs w' l = list_all_tasks st tg srt (repo w) \<and>
     (\<forall>l'. l' \<noteq> l \<longrightarrow> seqs w' l' = seqs w l')"
    using l by (simp add: w')
  have mut: "repo (assign_seq l xs w') = repo w \<and>
        (\<forall>st' tg' srt'.
           fst (list_all_new st' tg' srt' (assign_seq l xs w')) \<noteq> l \<and>
           seqs (snd (list_all_new st' tg' srt' (assign_seq l xs w')))
             (fst (list_all_new st' tg' srt' (assign_seq l xs w'))) =
             list_all_tasks st' tg' srt' (repo w))" for xs
    by (simp add: w' assign_seq_def list_all_new_def Let_def)
  have live: "seqs (on_repo (step x) w') l = list_all_tasks st tg srt (repo w)" for x
    by (simp add: w' on_repo_def)
  have shared: "(\<exists>k. (k, r) \<in> set (tasks (repo w))) \<and>
        (\<forall>i. get i (setattr r f (repo w)) = get i (repo w)) \<and>
        heap (setattr r f (repo w)) r = f (heap (repo w) r) \<and>
        (\<forall>r'. r' \<noteq> r \<longrightarrow> heap (setattr r f (repo w)) r' = heap (repo w) r') \<and>
        tasks (setattr r f (repo w)) = tasks (repo w) \<and>
        next_id (setattr r f (repo w)) = next_id (repo w) \<and>
        seqs (on_repo (setattr r f) w') l = seqs w' l \<and>
        (\<forall>srt'. mset (map (heap (setattr r f (repo w)))
                     (list_all_tasks All' None srt' (setattr r f (repo w)))) =
                 mset (map (\<lambda>x. if x = r then f (heap (repo w) r) else heap (repo w) x)
                     (map snd (tasks (repo w)))))"
    if "r \<in> set (seqs w' l) \<or> (\<exists>i. get i (repo w) = Inr r)" for r f
  proof -
    have "\<exists>k. (k, r) \<in> set (tasks (repo w))"
      using that
    proof
      assume "r \<in> set (seqs w' l)"
      then have "r \<in> set (list_all_tasks st tg srt (repo w))"
        by (simp add: w')
      with set_list_all_tasks show ?thesis by fastforce
    next
      assume "\<exists>i. get i (repo w) = Inr r"
      then show ?thesis by (blast dest: get_stored)
    qed
    moreover have "(\<forall>i. get i (setattr r f (repo w)) = get i (repo w)) \<and>
        heap (setattr r f (repo w)) r = f (heap (repo w) r) \<and>
        (\<forall>r'. r' \<noteq> r \<longrightarrow> heap (setattr r f (repo w)) r' = heap (repo w) r') \<and>
        tasks (setattr r f (repo w)) = tasks (repo w) \<and>
        next_id (setattr r f (repo w)) = next_id (repo w)"
      by (simp add: setattr_def get_def)
    moreover have "seqs (on_repo (setattr r f) w') l = seqs w' l"
      by (simp add: on_repo_def)
    ultimately show ?thesis
      using listed_after_setattr [of r f "repo w"] by blast
  qed
  from fresh mut live shared show ?thesis
    by blast
qed

theorem listing_is_new_tasks_are_shared_witness:
  "fst (list_all_new All' None ByCreated demo_world) = 0 \<and>
   seqs (snd (list_all_new All' None ByCreated demo_world)) 0 = [2, 3, 0, 1] \<and>
   repo (assign_seq 0 [] (snd (list_all_new All' None ByCreated demo_world))) = demo \<and>
   seqs (on_repo (step (Delete 1)) (snd (list_all_new All' None ByCreated demo_world))) 0 =
     [2, 3, 0, 1] \<and>
   get 1 demo = Inr 0 \<and> status (heap demo 0) = Open \<and>
   status (heap (setattr 0 (\<lambda>t. t\<lparr>status := Done\<rparr>) demo) 0) = Done \<and>
   get 1 (setattr 0 (\<lambda>t. t\<lparr>status := Done\<rparr>) demo) = Inr 0"
proof -
  obtain l w' where e: "list_all_new All' None ByCreated demo_world = (l, w')"
    by (cases "list_all_new All' None ByCreated demo_world")
  note t = listing_is_new_tasks_are_shared [OF e]
  have r: "repo demo_world = demo" "next_seq demo_world = 0"
    by (simp_all add: demo_world_def)
  from t r have l0: "l = 0"
    by simp
  from t have "seqs w' l = list_all_tasks All' None ByCreated (repo demo_world)"
    by blast
  with r l0 have c: "seqs w' 0 = [2, 3, 0, 1]"
    by (simp add: list_demo_created)
  from t have "repo (assign_seq l [] w') = repo demo_world"
    by blast
  with r l0 have m: "repo (assign_seq 0 [] w') = demo"
    by simp
  from t have "seqs (on_repo (step (Delete 1)) w') l =
      list_all_tasks All' None ByCreated (repo demo_world)"
    by blast
  with r l0 have d: "seqs (on_repo (step (Delete 1)) w') 0 = [2, 3, 0, 1]"
    by (simp add: list_demo_created)
  have g: "0 \<in> set (seqs w' l) \<or> (\<exists>i. get i (repo demo_world) = Inr 0)"
    using get_demo(1) r by auto
  from t g have "heap (setattr 0 (\<lambda>t. t\<lparr>status := Done\<rparr>) (repo demo_world)) 0 =
      (heap (repo demo_world) 0)\<lparr>status := Done\<rparr>"
    and "get 1 (setattr 0 (\<lambda>t. t\<lparr>status := Done\<rparr>) (repo demo_world)) =
      get 1 (repo demo_world)"
    by blast+
  with r have h: "status (heap (setattr 0 (\<lambda>t. t\<lparr>status := Done\<rparr>) demo) 0) = Done"
    "get 1 (setattr 0 (\<lambda>t. t\<lparr>status := Done\<rparr>) demo) = Inr 0"
    by (simp_all add: get_demo)
  from e l0 c m d h show ?thesis
    by (simp add: get_demo heap_demo)
qed

subsection \<open>Parsing a due date\<close>








lemma month_cases:
  "1 \<le> m \<Longrightarrow> m \<le> 12 \<Longrightarrow>
     m = 1 \<or> m = 2 \<or> m = 3 \<or> m = 4 \<or> m = 5 \<or> m = 6 \<or> m = 7 \<or> m = 8 \<or> m = 9 \<or> m = 10
     \<or> m = 11 \<or> m = (12::nat)"
  by arith

lemma days_in_month_table:
  assumes "1 \<le> m" "m \<le> 12"
  shows "days_in_month y m = month_lengths y ! (m - 1) \<and> days_in_month y m \<le> 31"
  using month_cases [OF assms]
  by (elim disjE) (simp_all add: days_in_month_def month_lengths_def is_leap_def)












end
